theory Spec2Isabelle
  imports Main
begin

section \<open>The process monitor of gamemode\_management (util/ProcessMonitor.ts)\<close>

subsection \<open>Values of the host language\<close>

text \<open>
  Process ids are JavaScript numbers. Every number the monitor handles is an integer, or
  the not-a-number value that \<open>Number.parseInt\<close> gives for text that does not start
  with a digit. \<open>NaN\<close> is a legal object key (the key \<open>"NaN"\<close>) and a legal member of a
  \<open>Set\<close>, and it is never \<open>===\<close> to an integer; the code compares numbers by \<open>===\<close>
  only against \<open>0\<close> and against the monitor's own pid, so HOL equality on this type is
  the comparison the code makes. Rounding of integers beyond 2^53 is not modelled.
\<close>

datatype number = Num int | NaN

text \<open>What the code can throw: a file-system error carrying its \<open>code\<close>, or a TypeError
  (reading a property of \<open>null\<close> or \<open>undefined\<close>).\<close>

datatype js_error = FsError string | TypeError

text \<open>\<open>String.prototype.toLowerCase\<close>, on the ASCII letters (strings are byte lists here).\<close>

definition lowerChar :: "char \<Rightarrow> char" where
  "lowerChar c =
     (let n = (of_char c :: nat) in if 65 \<le> n \<and> n \<le> 90 then char_of (n + 32) else c)"

definition toLowerCase :: "string \<Rightarrow> string" where
  "toLowerCase s = map lowerChar s"

subsection \<open>Process records and the two indices of a snapshot\<close>

record IProcessInfo =
  processID :: number
  parentProcessID :: number
  exeFile :: string

text \<open>
  \<open>processes.reduce((prev, proc) => { prev[proc.processID] = proc; return prev; }, {})\<close>:
  a later record with the same pid overwrites an earlier one.
\<close>

definition byPid :: "IProcessInfo list \<Rightarrow> (number \<rightharpoonup> IProcessInfo)" where
  "byPid processes = fold (\<lambda>proc prev. prev(processID proc \<mapsto> proc)) processes Map.empty"

text \<open>
  \<open>setdefault(prev, entry.exeFile.toLowerCase(), []).push(entry)\<close>: the records that
  share a lower-cased executable name, in the order of the process list. (\<open>setdefault\<close>
  of util/util stores the default under a key that is absent and returns what is stored
  under the key.) The indices are plain objects; a key that names a property every
  object inherits, such as \<open>constructor\<close>, is outside this model.
\<close>

definition setdefault_push ::
  "(string \<rightharpoonup> IProcessInfo list) \<Rightarrow> string \<Rightarrow> IProcessInfo \<Rightarrow> (string \<rightharpoonup> IProcessInfo list)" where
  "setdefault_push prev key entry =
     prev(key \<mapsto> (case prev key of None \<Rightarrow> [] | Some l \<Rightarrow> l) @ [entry])"

definition byName :: "IProcessInfo list \<Rightarrow> (string \<rightharpoonup> IProcessInfo list)" where
  "byName processes =
     fold (\<lambda>entry prev. setdefault_push prev (toLowerCase (exeFile entry)) entry)
       processes Map.empty"

subsection \<open>The ancestry walk\<close>

text \<open>
  \<open>isChildProcess\<close> is a closure over \<open>byPid\<close> (hence over the process list) and over
  \<open>vortexPid = process.pid\<close>. \<open>proc\<close> is \<open>None\<close> where the code sees \<open>undefined\<close>.
  The disjunction of the source is short-circuit, so the recursive call is made only
  when the parent is not the monitor itself.
\<close>

function isChildProcess ::
  "int \<Rightarrow> IProcessInfo list \<Rightarrow> IProcessInfo option \<Rightarrow> number set \<Rightarrow> bool" where
  "isChildProcess vortexPid processes proc visited =
     (case proc of
        None \<Rightarrow> False
      | Some p \<Rightarrow>
          if parentProcessID p = Num 0 then False
          else if parentProcessID p \<in> visited then False
          else if parentProcessID p = Num vortexPid then True
          else isChildProcess vortexPid processes
                 (byPid processes (parentProcessID p))
                 (insert (parentProcessID p) visited))"
  by pat_completeness auto

lemma dom_fold_upd:
  "dom (fold (\<lambda>proc prev. prev(processID proc \<mapsto> proc)) ps m) = processID ` set ps \<union> dom m"
  by (induction ps arbitrary: m) auto

lemma dom_byPid: "dom (byPid ps) = processID ` set ps"
  by (simp add: byPid_def dom_fold_upd)

lemma finite_dom_byPid: "finite (dom (byPid ps))"
  by (simp add: dom_byPid)

text \<open>
  Every step adds a pid to the visited set that was not in it. Either that pid is a key
  of \<open>byPid\<close>, and one key fewer is left unvisited, or it is not, and the next call gets
  \<open>undefined\<close> and returns.
\<close>

definition walk_measure :: "int \<times> IProcessInfo list \<times> IProcessInfo option \<times> number set \<Rightarrow> nat" where
  "walk_measure = (\<lambda>(vortexPid, processes, proc, visited).
     2 * card (dom (byPid processes) - visited) + (case proc of None \<Rightarrow> 0 | Some _ \<Rightarrow> 1))"

lemma walk_measure_decreases:
  assumes "q \<notin> visited"
  shows "walk_measure (v, ps, byPid ps q, insert q visited) < walk_measure (v, ps, Some p, visited)"
proof (cases "byPid ps q")
  case None
  then have "q \<notin> dom (byPid ps)" by auto
  then have "dom (byPid ps) - insert q visited = dom (byPid ps) - visited" by auto
  with None show ?thesis by (simp add: walk_measure_def)
next
  case (Some r)
  then have q: "q \<in> dom (byPid ps) - visited" using assms by auto
  have fin: "finite (dom (byPid ps) - visited)" using finite_dom_byPid by blast
  have "card ((dom (byPid ps) - visited) - {q}) < card (dom (byPid ps) - visited)"
    using fin q by (rule card_Diff1_less)
  moreover have "dom (byPid ps) - insert q visited = (dom (byPid ps) - visited) - {q}" by auto
  ultimately have "card (dom (byPid ps) - insert q visited) < card (dom (byPid ps) - visited)"
    by simp
  with Some show ?thesis by (simp add: walk_measure_def)
qed

termination isChildProcess
  by (relation "measure walk_measure") (auto intro: walk_measure_decreases)

declare isChildProcess.simps [simp del]

subsection \<open>String operations of the host language\<close>

text \<open>
  \<open>indexOf\<close> and \<open>lastIndexOf\<close> give \<open>-1\<close> when the character does not occur;
  \<open>slice\<close> counts a negative index from the end and clamps both ends to the string.
\<close>

fun firstIndex :: "char \<Rightarrow> string \<Rightarrow> nat option" where
  "firstIndex c [] = None"
| "firstIndex c (x # xs) =
     (if x = c then Some 0 else map_option Suc (firstIndex c xs))"

definition indexOf :: "string \<Rightarrow> char \<Rightarrow> int \<Rightarrow> int" where
  "indexOf s c position =
     (let k = nat (min (max position 0) (int (length s)))
      in case firstIndex c (drop k s) of
           None \<Rightarrow> - 1
         | Some i \<Rightarrow> int (k + i))"

definition lastIndexOf :: "string \<Rightarrow> char \<Rightarrow> int" where
  "lastIndexOf s c =
     (case firstIndex c (rev s) of
        None \<Rightarrow> - 1
      | Some i \<Rightarrow> int (length s) - 1 - int i)"

definition slice :: "string \<Rightarrow> int \<Rightarrow> int \<Rightarrow> string" where
  "slice s start fin =
     (let n = int (length s);
          from = (if start < 0 then max (n + start) 0 else min start n);
          to = (if fin < 0 then max (n + fin) 0 else min fin n)
      in take (nat (to - from)) (drop (nat from) s))"

text \<open>
  \<open>Number.parseInt\<close> without a radix: leading white space, an optional sign, an optional
  \<open>0x\<close> prefix that selects base 16, then the longest run of digits of the base;
  \<open>NaN\<close> when that run is empty.
\<close>

definition isWhiteSpace :: "char \<Rightarrow> bool" where
  "isWhiteSpace c = (let n = (of_char c :: nat) in n = 32 \<or> (9 \<le> n \<and> n \<le> 13))"

definition digitValue :: "char \<Rightarrow> nat option" where
  "digitValue c =
     (let n = (of_char c :: nat)
      in if 48 \<le> n \<and> n \<le> 57 then Some (n - 48)
         else if 97 \<le> n \<and> n \<le> 122 then Some (n - 87)
         else if 65 \<le> n \<and> n \<le> 90 then Some (n - 55)
         else None)"

definition isDigitOf :: "nat \<Rightarrow> char \<Rightarrow> bool" where
  "isDigitOf radix c = (case digitValue c of None \<Rightarrow> False | Some d \<Rightarrow> d < radix)"

definition digitsValue :: "nat \<Rightarrow> string \<Rightarrow> nat" where
  "digitsValue radix ds =
     foldl (\<lambda>acc c. acc * radix + (case digitValue c of None \<Rightarrow> 0 | Some d \<Rightarrow> d)) 0 ds"

definition parseInt :: "string \<Rightarrow> number" where
  "parseInt s =
     (let t = dropWhile isWhiteSpace s;
          negative = (take 1 t = ''-'');
          u = (if take 1 t = ''-'' \<or> take 1 t = ''+'' then drop 1 t else t);
          hex = (take 2 u = ''0x'' \<or> take 2 u = ''0X'');
          radix = (if hex then 16 else 10);
          ds = takeWhile (isDigitOf radix) (if hex then drop 2 u else u)
      in if ds = [] then NaN
         else Num ((if negative then - 1 else 1) * int (digitsValue radix ds)))"

subsection \<open>Process enumeration\<close>

text \<open>
  What the operating system answers during one check: the list \<open>winapi.GetProcessList\<close>
  returns, what \<open>fs.readdirSync("/proc")\<close> returns or throws, and what
  \<open>fs.readFileSync("/proc/<entry>/stat", "utf-8")\<close> returns or throws for an entry.
\<close>

record os =
  winapi_GetProcessList :: "IProcessInfo list"
  readdirSync_proc :: "js_error + string list"
  readFileSync_stat :: "string \<Rightarrow> js_error + string"

datatype IProcessMonitorImpl = ProcessMonitorImplWin32 | ProcessMonitorImplProcfs

definition isOnlyDigits :: "string \<Rightarrow> bool" where
  "isOnlyDigits s = list_all (\<lambda>c. \<not> ((of_char c :: nat) < 48 \<or> (of_char c :: nat) > 57)) s"

text \<open>
  \<open>getProcessInfo\<close>, for the string argument that \<open>getProcessList\<close> passes it. The result
  \<open>Inr None\<close> is the \<open>null\<close> the code returns when the read fails with \<open>ENOENT\<close>; any
  other error is thrown again.
\<close>

definition getProcessInfo :: "os \<Rightarrow> string \<Rightarrow> js_error + IProcessInfo option" where
  "getProcessInfo sys pidStr =
     (case readFileSync_stat sys pidStr of
        Inl err \<Rightarrow> (if err = FsError ''ENOENT'' then Inr None else Inl err)
      | Inr stat \<Rightarrow>
          let exeFile_start = indexOf stat (CHR ''('') 0 + 1;
              exeFile_end = lastIndexOf stat (CHR '')'');
              ppid_start = exeFile_end + 4
          in Inr (Some \<lparr>processID = parseInt pidStr,
                         parentProcessID =
                           parseInt (slice stat ppid_start (indexOf stat (CHR '' '') ppid_start)),
                         exeFile = slice stat exeFile_start exeFile_end\<rparr>))"

text \<open>\<open>Array.prototype.map\<close> with a callback that may throw: the first throw ends it.\<close>

fun map_throwing :: "('a \<Rightarrow> js_error + 'b) \<Rightarrow> 'a list \<Rightarrow> js_error + 'b list" where
  "map_throwing f [] = Inr []"
| "map_throwing f (x # xs) =
     (case f x of
        Inl err \<Rightarrow> Inl err
      | Inr y \<Rightarrow> (case map_throwing f xs of Inl err \<Rightarrow> Inl err | Inr ys \<Rightarrow> Inr (y # ys)))"

definition getProcessList ::
  "os \<Rightarrow> IProcessMonitorImpl \<Rightarrow> js_error + IProcessInfo option list" where
  "getProcessList sys impl =
     (case impl of
        ProcessMonitorImplWin32 \<Rightarrow> Inr (map Some (winapi_GetProcessList sys))
      | ProcessMonitorImplProcfs \<Rightarrow>
          (case readdirSync_proc sys of
             Inl err \<Rightarrow> Inl err
           | Inr proc_entries \<Rightarrow>
               map_throwing (getProcessInfo sys) (filter isOnlyDigits proc_entries)))"

subsection \<open>What the check reads from its collaborators\<close>

text \<open>
  Code the monitor calls that is outside this file: \<open>makeExeId\<close> (reducers/session),
  \<open>winapi.GetModuleList\<close> (of which only the \<open>exePath\<close> of each module is read),
  \<open>path.join\<close> and \<open>process.pid\<close>. They are parameters of the model; every theorem
  below holds for all of them.
\<close>

record externals =
  makeExeId :: "string \<Rightarrow> string"
  GetModuleList :: "number \<Rightarrow> string list"
  path_join :: "string \<Rightarrow> string \<Rightarrow> string"
  vortexPid :: int

text \<open>An entry of \<open>state.session.base.toolsRunning\<close>; the monitor reads its \<open>pid\<close>.\<close>

record IRunningTool =
  pid :: number
  running_exclusive :: bool

text \<open>\<open>IDiscoveredTool\<close>: \<open>path\<close> and \<open>exclusive\<close> are optional properties.\<close>

record IDiscoveredTool =
  path :: "string option"
  exclusive :: "bool option"

record IGame =
  game_id :: string
  game_executable :: "string option"

record IDiscoveryResult =
  disc_path :: "string option"
  disc_executable :: "string option"

text \<open>
  The part of \<open>IState\<close> that \<open>doCheck\<close> reads: \<open>currentGame(state)\<close>,
  \<open>currentGameDiscovery(state)\<close> (either may be \<open>undefined\<close>), the tools discovered
  for a game id, in the order \<open>Object.keys\<close> lists them (empty where \<open>getSafe\<close> falls
  back to \<open>{}\<close>), and \<open>session.base.toolsRunning\<close>, keyed by exe id.
\<close>

record store_state =
  currentGame :: "IGame option"
  currentGameDiscovery :: "IDiscoveryResult option"
  discoveredTools :: "string \<Rightarrow> (string \<times> IDiscoveredTool) list"
  toolsRunning :: "string \<rightharpoonup> IRunningTool"

text \<open>The two actions the monitor dispatches to the store.\<close>

datatype action =
    setToolPid string number bool
  | setToolStopped string

fun action_path :: "action \<Rightarrow> string" where
  "action_path (setToolPid exePath p e) = exePath"
| "action_path (setToolStopped exePath) = exePath"

subsection \<open>The decision for one executable\<close>

text \<open>
  \<open>update\<close> is a closure inside \<open>doCheck\<close>; it reads \<open>state\<close>, \<open>byPid\<close>, \<open>byName\<close>
  and \<open>isChildProcess\<close>. Its result here is the list of actions it dispatches, in order.
  The \<open>find\<close> callback reads \<open>modules[0]\<close> only when \<open>modules.length > 0\<close>.
\<close>

definition update ::
  "externals \<Rightarrow> store_state \<Rightarrow> IProcessInfo list \<Rightarrow> string \<Rightarrow> bool \<Rightarrow> bool \<Rightarrow> action list" where
  "update ext state processes exePath excl considerDetached =
     (let exeId = makeExeId ext exePath;
          knownRunning = toolsRunning state exeId;
          exeRunning = byName processes exeId
      in case exeRunning of
           None \<Rightarrow> (if knownRunning \<noteq> None then [setToolStopped exePath] else [])
         | Some running \<Rightarrow>
             if (case knownRunning of
                   None \<Rightarrow> False
                 | Some known \<Rightarrow> byPid processes (pid known) \<noteq> None)
             then []
             else
               let candidates =
                     (if considerDetached then running
                      else filter (\<lambda>proc. isChildProcess (vortexPid ext) processes (Some proc) {})
                             running);
                   match = find (\<lambda>exe.
                       case GetModuleList ext (processID exe) of
                         [] \<Rightarrow> False
                       | main # _ \<Rightarrow> toLowerCase main = toLowerCase exePath) candidates
               in case match of
                    Some m \<Rightarrow> [setToolPid exePath (processID m) excl]
                  | None \<Rightarrow> (if knownRunning \<noteq> None then [setToolStopped exePath] else []))"

subsection \<open>One check\<close>

text \<open>\<open>a || b\<close> on two optional strings: the empty string is falsy, as \<open>undefined\<close> is.\<close>

definition js_or :: "string option \<Rightarrow> string option \<Rightarrow> string option" where
  "js_or a b = (case a of None \<Rightarrow> b | Some x \<Rightarrow> if x = [] then b else Some x)"

text \<open>
  \<open>doCheck\<close> gives the actions it dispatched and the error it threw, if any. The first
  \<open>reduce\<close> reads \<open>proc.processID\<close> of every element of the process list, which throws a
  TypeError at a \<open>null\<close> element, before anything is dispatched. After the game's own
  \<open>update\<close>, \<open>game.id\<close> is read, which throws when \<open>currentGame\<close> gave \<open>undefined\<close>.
\<close>

definition doCheck ::
  "externals \<Rightarrow> os \<Rightarrow> store_state \<Rightarrow> IProcessMonitorImpl option \<Rightarrow> action list \<times> js_error option" where
  "doCheck ext sys state mImpl =
     (case mImpl of
        None \<Rightarrow> ([], Some TypeError)
      | Some impl \<Rightarrow>
          (case getProcessList sys impl of
             Inl err \<Rightarrow> ([], Some err)
           | Inr entries \<Rightarrow>
               (case those entries of
                  None \<Rightarrow> ([], Some TypeError)
                | Some processes \<Rightarrow>
                    let game = currentGame state;
                        gameDiscovery = currentGameDiscovery state;
                        gameExe = js_or (Option.bind gameDiscovery disc_executable)
                                        (Option.bind game game_executable);
                        gamePath = Option.bind gameDiscovery disc_path
                    in case (gameExe, gamePath) of
                         (Some exe, Some dir) \<Rightarrow>
                           let gameActions =
                                 update ext state processes (path_join ext dir exe) True True
                           in (case game of
                                 None \<Rightarrow> (gameActions, Some TypeError)
                               | Some g \<Rightarrow>
                                   (gameActions @
                                    concat (map (\<lambda>(toolId, tool).
                                        case path tool of
                                          None \<Rightarrow> []
                                        | Some toolPath \<Rightarrow>
                                            update ext state processes toolPath
                                              (case exclusive tool of None \<Rightarrow> False | Some e \<Rightarrow> e)
                                              False)
                                      (discoveredTools state (game_id g))),
                                    None))
                       | _ \<Rightarrow> ([], None))))"

subsection \<open>The polling schedule\<close>

text \<open>
  The fields of the class \<open>ProcessMonitor\<close> (the store is a collaborator and is not a
  field here). \<open>None\<close> stands for \<open>undefined\<close>. A timer is known by its handle.
\<close>

datatype BrowserWindow = CurrentWindow

record ProcessMonitor =
  mTimer :: "nat option"
  mWindow :: "BrowserWindow option"
  mActive :: bool
  mImpl :: "IProcessMonitorImpl option"

text \<open>
  The monitor together with what it does to its surroundings: the timeouts that are armed
  and have neither fired nor been cleared (handle and delay in milliseconds), the next
  fresh handle, the actions dispatched so far, the number of calls of \<open>doCheck\<close>, and
  the errors that left a timer callback uncaught.
\<close>

record runtime = ProcessMonitor +
  timers :: "(nat \<times> nat) list"
  nextHandle :: nat
  dispatched :: "action list"
  doCheckCalls :: nat
  uncaught :: "js_error list"

definition setTimeout :: "nat \<Rightarrow> runtime \<Rightarrow> nat \<times> runtime" where
  "setTimeout delay w =
     (nextHandle w, w\<lparr>timers := timers w @ [(nextHandle w, delay)], nextHandle := Suc (nextHandle w)\<rparr>)"

definition clearTimeout :: "nat \<Rightarrow> runtime \<Rightarrow> runtime" where
  "clearTimeout h w = w\<lparr>timers := filter (\<lambda>(h', delay). h' \<noteq> h) (timers w)\<rparr>"

text \<open>The constructor, given \<open>process.platform\<close>.\<close>

definition new_ProcessMonitor :: "string \<Rightarrow> runtime" where
  "new_ProcessMonitor platform =
     \<lparr>mTimer = None, mWindow = None, mActive = False,
      mImpl = (if platform = ''win32'' then Some ProcessMonitorImplWin32
               else if platform = ''linux'' then Some ProcessMonitorImplProcfs
               else None),
      timers = [], nextHandle = 0, dispatched = [], doCheckCalls = 0, uncaught = []\<rparr>"

text \<open>\<open>start\<close>; the argument says whether electron's \<open>remote\<close> is defined.\<close>

definition start :: "bool \<Rightarrow> runtime \<Rightarrow> runtime" where
  "start remote w =
     (if mImpl w = None then w
      else if mActive w then w
      else
        let w1 = (case mTimer w of None \<Rightarrow> w | Some t \<Rightarrow> clearTimeout t w);
            w2 = (if remote then w1\<lparr>mWindow := Some CurrentWindow\<rparr> else w1);
            (h, w3) = setTimeout 2000 w2
        in w3\<lparr>mTimer := Some h, mActive := True\<rparr>)"

text \<open>\<open>end\<close> (the name is reserved here).\<close>

definition end_monitor :: "runtime \<Rightarrow> runtime" where
  "end_monitor w =
     (case mTimer w of
        None \<Rightarrow> w
      | Some t \<Rightarrow> (clearTimeout t w)\<lparr>mTimer := None, mActive := False\<rparr>)"

text \<open>
  \<open>check\<close>, the timer callback. \<open>focused\<close> is what \<open>mWindow.isFocused()\<close> answers; the
  other arguments are what \<open>doCheck\<close> reads. An error thrown by \<open>doCheck\<close> leaves
  \<open>check\<close> at once, so no timeout is armed after it. \<open>doCheck\<close> itself assigns no
  field of the monitor; the subscribers of the store are taken not to call \<open>start\<close> or
  \<open>end\<close> while an action is dispatched.
\<close>

definition check :: "externals \<Rightarrow> os \<Rightarrow> store_state \<Rightarrow> bool \<Rightarrow> runtime \<Rightarrow> runtime" where
  "check ext sys state focused w =
     (if \<not> mActive w then w
      else if mWindow w = None \<or> focused then
        (let (actions, thrown) = doCheck ext sys state (mImpl w);
             w1 = w\<lparr>dispatched := dispatched w @ actions, doCheckCalls := Suc (doCheckCalls w)\<rparr>
         in case thrown of
              Some err \<Rightarrow> w1\<lparr>uncaught := uncaught w1 @ [err]\<rparr>
            | None \<Rightarrow>
                if mActive w1 then (let (h, w2) = setTimeout 2000 w1 in w2\<lparr>mTimer := Some h\<rparr>)
                else w1)
      else (let (h, w2) = setTimeout 5000 w in w2\<lparr>mTimer := Some h\<rparr>))"

text \<open>
  What can happen to a monitor: a call of \<open>start\<close>, a call of \<open>end\<close>, or the firing of a
  timeout. A timeout fires only while it is armed; firing disarms it and runs \<open>check\<close>.
\<close>

datatype event =
    is_Start: Start bool
  | is_End: End
  | is_Fire: Fire nat externals os store_state bool

fun step :: "event \<Rightarrow> runtime \<Rightarrow> runtime" where
  "step (Start remote) w = start remote w"
| "step End w = end_monitor w"
| "step (Fire h ext sys state focused) w =
     (if h \<in> fst ` set (timers w) then check ext sys state focused (clearTimeout h w) else w)"

definition run :: "event list \<Rightarrow> runtime \<Rightarrow> runtime" where
  "run events w = fold step events w"

section \<open>Concrete snapshots\<close>

text \<open>
  The inputs at which the properties below are evaluated. The monitor's own pid is 1000.
  Four processes are named like the tool: pid 100 and pid 150 are children of the
  monitor, pid 200 is a child of pid 100, pid 300 has a parent outside the snapshot.
  Only pid 200 and pid 300 have the configured path as main module; pid 150 has no
  module list.
\<close>

definition basename :: "string \<Rightarrow> string" where
  "basename p = rev (takeWhile (\<lambda>c. c \<noteq> CHR ''/'' \<and> c \<noteq> CHR 0x5C) (rev p))"

text \<open>
  Modelled from the spec: \<open>makeExeId\<close> of reducers/session is not among the sources. The
  spec describes the exe identity as the lower-cased file name of a full executable path.
  Only the concrete snapshots use this definition; the general theorems hold for every
  \<open>makeExeId\<close>.
\<close>

definition makeExeId_spec :: "string \<Rightarrow> string" where
  "makeExeId_spec exePath = toLowerCase (basename exePath)"

definition example_modules :: "number \<Rightarrow> string list" where
  "example_modules q =
     (if q = Num 100 then [''/other/tool.exe'']
      else if q = Num 150 then []
      else if q = Num 200 then [''/Configured/Path/Tool.exe'', ''/lib/helper.dll'']
      else if q = Num 300 then [''/configured/path/tool.exe'']
      else [])"

definition example_ext :: externals where
  "example_ext =
     \<lparr>makeExeId = makeExeId_spec, GetModuleList = example_modules,
      path_join = (\<lambda>dir file. dir @ ''/'' @ file), vortexPid = 1000\<rparr>"

definition p100 :: IProcessInfo where
  "p100 = \<lparr>processID = Num 100, parentProcessID = Num 1000, exeFile = ''tool.exe''\<rparr>"

definition p150 :: IProcessInfo where
  "p150 = \<lparr>processID = Num 150, parentProcessID = Num 1000, exeFile = ''Tool.EXE''\<rparr>"

definition p200 :: IProcessInfo where
  "p200 = \<lparr>processID = Num 200, parentProcessID = Num 100, exeFile = ''tool.exe''\<rparr>"

definition p300 :: IProcessInfo where
  "p300 = \<lparr>processID = Num 300, parentProcessID = Num 1, exeFile = ''tool.exe''\<rparr>"

definition tool_processes :: "IProcessInfo list" where
  "tool_processes = [p100, p150, p200, p300]"

definition example_state :: "(string \<rightharpoonup> IRunningTool) \<Rightarrow> store_state" where
  "example_state known =
     \<lparr>currentGame = Some \<lparr>game_id = ''skyrim'', game_executable = Some ''game.exe''\<rparr>,
      currentGameDiscovery = Some \<lparr>disc_path = Some ''/games/skyrim'', disc_executable = None\<rparr>,
      discoveredTools = (\<lambda>gameId. if gameId = ''skyrim''
         then [(''tool'', \<lparr>path = Some ''/configured/path/tool.exe'', exclusive = None\<rparr>)]
         else []),
      toolsRunning = known\<rparr>"

definition example_os :: "IProcessInfo list \<Rightarrow> os" where
  "example_os ps = \<lparr>winapi_GetProcessList = ps, readdirSync_proc = Inr [],
                      readFileSync_stat = (\<lambda>entry. Inl (FsError ''ENOENT''))\<rparr>"

text \<open>A process of another name that got the pid the store remembers for the tool.\<close>

definition reused_pid_process :: IProcessInfo where
  "reused_pid_process =
     \<lparr>processID = Num 200, parentProcessID = Num 1, exeFile = ''notepad.exe''\<rparr>"

definition known_tool :: "int \<Rightarrow> (string \<rightharpoonup> IRunningTool)" where
  "known_tool q = [''tool.exe'' \<mapsto> \<lparr>pid = Num q, running_exclusive = False\<rparr>]"

definition tool_path :: string where
  "tool_path = ''/configured/path/tool.exe''"

definition no_discovery_state :: store_state where
  "no_discovery_state = (example_state (known_tool 5))\<lparr>currentGameDiscovery := None\<rparr>"

text \<open>
  A \<open>/proc\<close> in which pid 4242 is listed and its \<open>stat\<close> file is gone when it is read.
\<close>

definition vanishing_proc :: os where
  "vanishing_proc =
     \<lparr>winapi_GetProcessList = [],
      readdirSync_proc = Inr [''1'', ''4242'', ''self''],
      readFileSync_stat = (\<lambda>entry.
         if entry = ''1'' then Inr ''1 (systemd) S 0 1 1 0 -1 4194560 ''
         else Inl (FsError ''ENOENT''))\<rparr>"

text \<open>A started monitor whose first timeout has just fired, on either platform.\<close>

definition procfs_monitor_fired :: runtime where
  "procfs_monitor_fired = clearTimeout 0 (run [Start True] (new_ProcessMonitor ''linux''))"

definition armed_monitor :: runtime where
  "armed_monitor = clearTimeout 0 (run [Start True] (new_ProcessMonitor ''win32''))"

definition background_tick :: "event list" where
  "background_tick =
     [Start True, Fire 0 example_ext (example_os [reused_pid_process])
                    (example_state (known_tool 200)) False]"

definition started_once :: runtime where
  "started_once = run [Start True] (new_ProcessMonitor ''linux'')"

definition late_fire :: event where
  "late_fire = Fire 0 example_ext (example_os [reused_pid_process])
                 (example_state (known_tool 200)) True"

section \<open>Properties of the ancestry walk\<close>

text \<open>
  The arguments of every call lie in the accessible part of the call relation of
  \<open>isChildProcess\<close>: no chain of recursive calls that starts from them is infinite.
\<close>

lemma isChildProcess_rel_measure:
  "isChildProcess_rel x y \<Longrightarrow> walk_measure x < walk_measure y"
  by (induction rule: isChildProcess_rel.induct) (auto intro: walk_measure_decreases)

lemma isChildProcess_total: "isChildProcess_dom args"
proof (induction "walk_measure args" arbitrary: args rule: less_induct)
  case less
  show ?case
  proof (rule accpI)
    fix y
    assume "isChildProcess_rel y args"
    then have "walk_measure y < walk_measure args" by (rule isChildProcess_rel_measure)
    then show "isChildProcess_dom y" by (rule less)
  qed
qed

definition cyclic_processes :: "IProcessInfo list" where
  "cyclic_processes =
     [\<lparr>processID = Num 10, parentProcessID = Num 20, exeFile = ''game.exe''\<rparr>,
      \<lparr>processID = Num 20, parentProcessID = Num 10, exeFile = ''launcher.exe''\<rparr>]"

lemma byPid_cyclic:
  "byPid cyclic_processes (Num 20) =
     Some \<lparr>processID = Num 20, parentProcessID = Num 10, exeFile = ''launcher.exe''\<rparr>"
  "byPid cyclic_processes (Num 10) =
     Some \<lparr>processID = Num 10, parentProcessID = Num 20, exeFile = ''game.exe''\<rparr>"
  by (simp_all add: byPid_def cyclic_processes_def)

text \<open>
  C1. For every process list (hence every \<open>byPid\<close> index), every root pid, every record
  or \<open>undefined\<close> and every visited set, the walk terminates: the arguments are in the
  domain of termination of \<open>isChildProcess\<close>, whatever the parent pids are, cyclic or not.
  Its value is a boolean, and it is \<open>false\<close> when the record is absent, when its parent pid
  is 0, and when its parent pid is already in the visited set.
\<close>

theorem isChildProcess_terminates:
  "isChildProcess_dom (rootPid, processes, proc, visited)
   \<and> \<not> isChildProcess rootPid processes None visited
   \<and> (parentProcessID p = Num 0 \<longrightarrow> \<not> isChildProcess rootPid processes (Some p) visited)
   \<and> (parentProcessID p \<in> visited \<longrightarrow> \<not> isChildProcess rootPid processes (Some p) visited)"
  by (simp add: isChildProcess_total isChildProcess.simps)

text \<open>
  The snapshot in which pid 10 has parent 20 and pid 20 has parent 10: the walk from
  pid 10 visits 20, then 10, finds 20 visited already and answers \<open>false\<close>.
\<close>

theorem isChildProcess_terminates_witness:
  "isChildProcess_dom
     (1, cyclic_processes,
      Some \<lparr>processID = Num 10, parentProcessID = Num 20, exeFile = ''game.exe''\<rparr>, {})
   \<and> \<not> isChildProcess 1 cyclic_processes
       (Some \<lparr>processID = Num 10, parentProcessID = Num 20, exeFile = ''game.exe''\<rparr>) {}"
proof -
  let ?p10 = "\<lparr>processID = Num 10, parentProcessID = Num 20, exeFile = ''game.exe''\<rparr>"
  let ?p20 = "\<lparr>processID = Num 20, parentProcessID = Num 10, exeFile = ''launcher.exe''\<rparr>"
  have last: "\<not> isChildProcess 1 cyclic_processes (Some ?p10) {Num 10, Num 20}"
    using isChildProcess_terminates[of 1 cyclic_processes "Some ?p10" "{Num 10, Num 20}" ?p10]
    by simp
  have "isChildProcess 1 cyclic_processes (Some ?p10) {}
        = isChildProcess 1 cyclic_processes (Some ?p20) {Num 20}"
    by (subst isChildProcess.simps) (simp add: byPid_cyclic)
  also have "\<dots> = isChildProcess 1 cyclic_processes (Some ?p10) {Num 10, Num 20}"
    by (subst isChildProcess.simps) (simp add: byPid_cyclic)
  finally show ?thesis
    using last isChildProcess_terminates[of 1 cyclic_processes "Some ?p10" "{}" ?p10]
    by simp
qed

section \<open>Properties of the two indices\<close>

lemma fold_byName:
  "fold (\<lambda>entry prev. setdefault_push prev (toLowerCase (exeFile entry)) entry) ps m key =
     (case (case m key of None \<Rightarrow> [] | Some l \<Rightarrow> l)
             @ filter (\<lambda>p. toLowerCase (exeFile p) = key) ps of
        [] \<Rightarrow> m key
      | l \<Rightarrow> Some l)"
proof (induction ps arbitrary: m)
  case Nil
  then show ?case by (simp split: option.splits list.splits)
next
  case (Cons p ps)
  let ?F = "\<lambda>entry prev. setdefault_push prev (toLowerCase (exeFile entry)) entry"
  let ?m' = "setdefault_push m (toLowerCase (exeFile p)) p"
  have "fold ?F (p # ps) m key = fold ?F ps ?m' key" by simp
  also have "\<dots> = (case (case ?m' key of None \<Rightarrow> [] | Some l \<Rightarrow> l)
             @ filter (\<lambda>p. toLowerCase (exeFile p) = key) ps of
        [] \<Rightarrow> ?m' key
      | l \<Rightarrow> Some l)"
    by (rule Cons.IH)
  also have "\<dots> = (case (case m key of None \<Rightarrow> [] | Some l \<Rightarrow> l)
             @ filter (\<lambda>p. toLowerCase (exeFile p) = key) (p # ps) of
        [] \<Rightarrow> m key
      | l \<Rightarrow> Some l)"
    by (simp add: setdefault_push_def split: option.splits list.splits)
  finally show ?case .
qed

lemma byName_eq:
  "byName processes key =
     (case filter (\<lambda>p. toLowerCase (exeFile p) = key) processes of
        [] \<Rightarrow> None
      | l \<Rightarrow> Some l)"
  by (simp add: byName_def fold_byName)

lemma byName_SomeD:
  assumes "byName processes key = Some running"
  shows "running = filter (\<lambda>p. toLowerCase (exeFile p) = key) processes" and "running \<noteq> []"
  using assms by (auto simp: byName_eq split: list.splits)

lemma byPid_None_iff: "byPid processes q = None \<longleftrightarrow> q \<notin> processID ` set processes"
proof -
  have "byPid processes q = None \<longleftrightarrow> q \<notin> dom (byPid processes)" by (simp add: domIff)
  then show ?thesis by (simp only: dom_byPid)
qed

lemma find_first:
  assumes "P m" and "\<forall>y\<in>set ys. \<not> P y"
  shows "find P (ys @ m # zs) = Some m"
  using assms by (induction ys) auto

lemma find_SomeD:
  assumes "find P xs = Some x"
  shows "x \<in> set xs" and "P x"
  using assms by (induction xs) (auto split: if_splits)

section \<open>Properties of the decision for one executable\<close>

lemma update_action_path:
  "a \<in> set (update ext state processes exePath excl considerDetached) \<Longrightarrow> action_path a = exePath"
  by (auto simp: update_def Let_def split: option.splits if_splits)

text \<open>
  Every action of a check that read the process list \<open>processes\<close> comes from a call of
  \<open>update\<close> on that list.
\<close>

lemma those_map_Some: "those (map Some xs) = Some xs"
  by (induction xs) auto

lemma doCheck_actionsD:
  assumes "getProcessList sys impl = Inr (map Some processes)"
      and "a \<in> set (fst (doCheck ext sys state (Some impl)))"
  shows "\<exists>exePath excl considerDetached.
           a \<in> set (update ext state processes exePath excl considerDetached)"
  using assms
  by (auto simp: doCheck_def those_map_Some Let_def split: option.splits prod.splits)

lemma doCheck_steady:
  assumes "getProcessList sys impl = Inr (map Some processes)"
      and "\<And>excl considerDetached. update ext state processes exePath excl considerDetached = []"
  shows "\<forall>a\<in>set (fst (doCheck ext sys state (Some impl))). action_path a \<noteq> exePath"
proof
  fix a assume "a \<in> set (fst (doCheck ext sys state (Some impl)))"
  then obtain p e d where a: "a \<in> set (update ext state processes p e d)"
    using doCheck_actionsD[OF assms(1)] by blast
  then have "action_path a = p" by (rule update_action_path)
  moreover have "p \<noteq> exePath" using a assms(2) by auto
  ultimately show "action_path a \<noteq> exePath" by simp
qed

lemma doCheck_only:
  assumes "getProcessList sys impl = Inr (map Some processes)"
      and "\<And>excl considerDetached. update ext state processes exePath excl considerDetached = [b]"
  shows "\<forall>a\<in>set (fst (doCheck ext sys state (Some impl))). action_path a = exePath \<longrightarrow> a = b"
proof (intro ballI impI)
  fix a assume "a \<in> set (fst (doCheck ext sys state (Some impl)))" and p: "action_path a = exePath"
  then obtain p e d where a: "a \<in> set (update ext state processes p e d)"
    using doCheck_actionsD[OF assms(1)] by blast
  then have "action_path a = p" by (rule update_action_path)
  with p a assms(2) show "a = b" by simp
qed

text \<open>
  C4 (as the code has it). If the known-running state has an entry for the exe id of path
  \<open>exePath\<close>, the stored pid is a key of \<open>byPid\<close>, and at least one process of the
  snapshot has that executable name (\<open>byName\<close> has an entry for the exe id), then
  \<open>update\<close> dispatches nothing for \<open>exePath\<close>, whatever its two flags, and no action of
  the whole check is about \<open>exePath\<close>. The test of \<open>byName\<close> comes first in the code:
  without a process of that name, \<open>update\<close> dispatches \<open>setToolStopped\<close> although the
  stored pid is still in \<open>byPid\<close>.
\<close>

theorem update_steady_state:
  assumes "toolsRunning state (makeExeId ext exePath) = Some known"
      and "byPid processes (pid known) \<noteq> None"
      and "byName processes (makeExeId ext exePath) \<noteq> None"
  shows "update ext state processes exePath excl considerDetached = []
       \<and> (getProcessList sys impl = Inr (map Some processes) \<longrightarrow>
            (\<forall>a\<in>set (fst (doCheck ext sys state (Some impl))). action_path a \<noteq> exePath))"
proof -
  have quiet: "update ext state processes exePath e d = []" for e d
    using assms by (auto simp: update_def Let_def)
  then show ?thesis using doCheck_steady[of sys impl processes ext state exePath] by blast
qed

text \<open>
  The claim without the condition on \<open>byName\<close> fails: the store remembers pid 200 for
  the tool, pid 200 is in the snapshot but belongs to \<open>notepad.exe\<close>, and no process is
  named like the tool. \<open>update\<close>, and the whole check, dispatch \<open>setToolStopped\<close>.
\<close>

theorem update_steady_state_counterexample:
  "toolsRunning (example_state (known_tool 200)) (makeExeId example_ext tool_path)
     = Some \<lparr>pid = Num 200, running_exclusive = False\<rparr>
   \<and> byPid [reused_pid_process] (Num 200) = Some reused_pid_process
   \<and> update example_ext (example_state (known_tool 200)) [reused_pid_process] tool_path False False
       = [setToolStopped tool_path]
   \<and> doCheck example_ext (example_os [reused_pid_process]) (example_state (known_tool 200))
         (Some ProcessMonitorImplWin32)
       = ([setToolStopped tool_path], None)"
  by code_simp

text \<open>The steady state: the store remembers pid 200, which still runs the tool.\<close>

theorem update_steady_state_witness:
  "toolsRunning (example_state (known_tool 200)) (makeExeId example_ext tool_path)
     = Some \<lparr>pid = Num 200, running_exclusive = False\<rparr>
   \<and> byPid tool_processes (Num 200) \<noteq> None
   \<and> byName tool_processes (makeExeId example_ext tool_path) \<noteq> None
   \<and> getProcessList (example_os tool_processes) ProcessMonitorImplWin32
       = Inr (map Some tool_processes)
   \<and> update example_ext (example_state (known_tool 200)) tool_processes tool_path False False = []
   \<and> list_all (\<lambda>a. action_path a \<noteq> tool_path)
         (fst (doCheck example_ext (example_os tool_processes)
                (example_state (known_tool 200)) (Some ProcessMonitorImplWin32)))
   \<and> fst (doCheck example_ext (example_os tool_processes)
                (example_state (known_tool 200)) (Some ProcessMonitorImplWin32)) = []"
proof -
  have h1: "toolsRunning (example_state (known_tool 200)) (makeExeId example_ext tool_path)
     = Some \<lparr>pid = Num 200, running_exclusive = False\<rparr>"
    by code_simp
  have h2: "byPid tool_processes (pid \<lparr>pid = Num 200, running_exclusive = False\<rparr>) \<noteq> None"
    by code_simp
  have h3: "byName tool_processes (makeExeId example_ext tool_path) \<noteq> None"
    by code_simp
  have h4: "getProcessList (example_os tool_processes) ProcessMonitorImplWin32
       = Inr (map Some tool_processes)"
    by code_simp
  have h5: "fst (doCheck example_ext (example_os tool_processes)
                (example_state (known_tool 200)) (Some ProcessMonitorImplWin32)) = []"
    by code_simp
  show ?thesis
    using update_steady_state[OF h1 h2 h3, of False False "example_os tool_processes"
        ProcessMonitorImplWin32] h1 h2 h3 h4 h5
    by (simp add: list_all_iff)
qed

lemma update_stopped_one:
  assumes "toolsRunning state (makeExeId ext exePath) = Some known"
      and "byPid processes (pid known) = None"
      and "\<forall>proc\<in>set processes.
             toLowerCase (exeFile proc) = makeExeId ext exePath \<longrightarrow>
             (case GetModuleList ext (processID proc) of
                [] \<Rightarrow> True
              | main # _ \<Rightarrow> toLowerCase main \<noteq> toLowerCase exePath)"
  shows "update ext state processes exePath excl considerDetached = [setToolStopped exePath]"
proof (cases "byName processes (makeExeId ext exePath)")
  case None
  with assms(1) show ?thesis by (simp add: update_def Let_def)
next
  case (Some running)
  let ?confirmed = "\<lambda>exe. case GetModuleList ext (processID exe) of
                         [] \<Rightarrow> False
                       | main # _ \<Rightarrow> toLowerCase main = toLowerCase exePath"
  have running: "running = filter (\<lambda>p. toLowerCase (exeFile p) = makeExeId ext exePath) processes"
    using Some by (rule byName_SomeD)
  have none: "\<forall>exe\<in>set running. \<not> ?confirmed exe"
    using assms(3) unfolding running by (auto split: list.splits)
  have "find ?confirmed (if considerDetached then running
          else filter (\<lambda>proc. isChildProcess (vortexPid ext) processes (Some proc) {}) running) = None"
    using none by (auto simp: find_None_iff)
  with Some assms(1,2) show ?thesis by (simp add: update_def Let_def)
qed

text \<open>
  C5. If the known-running state has an entry for the exe id of \<open>exePath\<close> whose pid is
  not a key of \<open>byPid\<close>, and no process of the snapshot with that executable name has a
  main module equal to \<open>exePath\<close> up to case (an empty module list counts as no match),
  then \<open>update\<close> dispatches exactly \<open>setToolStopped exePath\<close>, and every action of the
  whole check that is about \<open>exePath\<close> is that one: there is no \<open>setToolPid\<close> for it.
  (The check calls \<open>update\<close> once for each configured entry; the single action is per
  entry.)
\<close>

theorem update_stopped:
  assumes "toolsRunning state (makeExeId ext exePath) = Some known"
      and "byPid processes (pid known) = None"
      and "\<forall>proc\<in>set processes.
             toLowerCase (exeFile proc) = makeExeId ext exePath \<longrightarrow>
             (case GetModuleList ext (processID proc) of
                [] \<Rightarrow> True
              | main # _ \<Rightarrow> toLowerCase main \<noteq> toLowerCase exePath)"
  shows "update ext state processes exePath excl considerDetached = [setToolStopped exePath]
       \<and> (getProcessList sys impl = Inr (map Some processes) \<longrightarrow>
            (\<forall>a\<in>set (fst (doCheck ext sys state (Some impl))).
               action_path a = exePath \<longrightarrow> a = setToolStopped exePath))"
proof -
  have one: "update ext state processes exePath e d = [setToolStopped exePath]" for e d
    using assms by (rule update_stopped_one)
  then show ?thesis
    using doCheck_only[of sys impl processes ext state exePath "setToolStopped exePath"] by blast
qed

text \<open>The store remembers pid 5; pids 100 and 150 carry the name but not the path.\<close>

theorem update_stopped_witness:
  "toolsRunning (example_state (known_tool 5)) (makeExeId example_ext tool_path)
     = Some \<lparr>pid = Num 5, running_exclusive = False\<rparr>
   \<and> byPid [p100, p150] (Num 5) = None
   \<and> getProcessList (example_os [p100, p150]) ProcessMonitorImplWin32 = Inr (map Some [p100, p150])
   \<and> update example_ext (example_state (known_tool 5)) [p100, p150] tool_path False False
       = [setToolStopped tool_path]
   \<and> list_all (\<lambda>a. action_path a \<noteq> tool_path \<or> a = setToolStopped tool_path)
         (fst (doCheck example_ext (example_os [p100, p150])
                (example_state (known_tool 5)) (Some ProcessMonitorImplWin32)))
   \<and> fst (doCheck example_ext (example_os [p100, p150])
                (example_state (known_tool 5)) (Some ProcessMonitorImplWin32))
       = [setToolStopped tool_path]"
proof -
  have h1: "toolsRunning (example_state (known_tool 5)) (makeExeId example_ext tool_path)
     = Some \<lparr>pid = Num 5, running_exclusive = False\<rparr>"
    by code_simp
  have h2: "byPid [p100, p150] (pid \<lparr>pid = Num 5, running_exclusive = False\<rparr>) = None"
    by code_simp
  have h3: "\<forall>proc\<in>set [p100, p150].
             toLowerCase (exeFile proc) = makeExeId example_ext tool_path \<longrightarrow>
             (case GetModuleList example_ext (processID proc) of
                [] \<Rightarrow> True
              | main # _ \<Rightarrow> toLowerCase main \<noteq> toLowerCase tool_path)"
    by code_simp
  have h4: "getProcessList (example_os [p100, p150]) ProcessMonitorImplWin32
             = Inr (map Some [p100, p150])"
    by code_simp
  have h5: "fst (doCheck example_ext (example_os [p100, p150])
                (example_state (known_tool 5)) (Some ProcessMonitorImplWin32))
       = [setToolStopped tool_path]"
    by code_simp
  show ?thesis
    using update_stopped[OF h1 h2 h3, of False False "example_os [p100, p150]"
        ProcessMonitorImplWin32] h1 h2 h4 h5
    by (simp add: list_all_iff)
qed

text \<open>
  C6. For a target that does not allow detached matches (\<open>considerDetached\<close> false), if
  every process of the snapshot that has the target's executable name fails
  \<open>isChildProcess\<close> with the monitor's own pid as root and an empty visited set, then
  \<open>update\<close> dispatches no \<open>setToolPid\<close>.
\<close>

theorem update_not_child_no_start:
  assumes "\<forall>proc\<in>set processes.
             toLowerCase (exeFile proc) = makeExeId ext exePath \<longrightarrow>
             \<not> isChildProcess (vortexPid ext) processes (Some proc) {}"
  shows "setToolPid anyPath anyPid anyExcl \<notin> set (update ext state processes exePath excl False)"
proof (cases "byName processes (makeExeId ext exePath)")
  case None
  then show ?thesis by (simp add: update_def Let_def)
next
  case (Some running)
  have running: "running = filter (\<lambda>p. toLowerCase (exeFile p) = makeExeId ext exePath) processes"
    using Some by (rule byName_SomeD)
  have "filter (\<lambda>proc. isChildProcess (vortexPid ext) processes (Some proc) {}) running = []"
    using assms unfolding running by (auto simp: filter_empty_conv)
  with Some show ?thesis by (simp add: update_def Let_def split: option.splits)
qed

text \<open>
  Pid 300 has the name and the configured main module but is no descendant of the
  monitor: nothing is reported for a target that must be a child, and pid 300 is reported
  for one that may be detached.
\<close>

theorem update_not_child_no_start_witness:
  "toLowerCase (exeFile p300) = makeExeId example_ext tool_path
   \<and> \<not> isChildProcess (vortexPid example_ext) [p300] (Some p300) {}
   \<and> byName [p300] (makeExeId example_ext tool_path) = Some [p300]
   \<and> setToolPid tool_path (Num 300) False
       \<notin> set (update example_ext (example_state Map.empty) [p300] tool_path False False)
   \<and> update example_ext (example_state Map.empty) [p300] tool_path False True
       = [setToolPid tool_path (Num 300) False]"
proof -
  have h1: "\<forall>proc\<in>set [p300].
      toLowerCase (exeFile proc) = makeExeId example_ext tool_path \<longrightarrow>
      \<not> isChildProcess (vortexPid example_ext) [p300] (Some proc) {}"
    by code_simp
  have h2: "byName [p300] (makeExeId example_ext tool_path) = Some [p300]"
    by code_simp
  have h3: "update example_ext (example_state Map.empty) [p300] tool_path False True
       = [setToolPid tool_path (Num 300) False]"
    by code_simp
  have h4: "toLowerCase (exeFile p300) = makeExeId example_ext tool_path" by code_simp
  have h5: "\<not> isChildProcess (vortexPid example_ext) [p300] (Some p300) {}" by code_simp
  show ?thesis
    using update_not_child_no_start[OF h1, of tool_path "Num 300" False
        "example_state Map.empty" False] h2 h3 h4 h5
    by simp
qed

text \<open>
  C7. When \<open>update\<close> gets as far as matching (processes of that name exist and the
  known pid, if any, is gone), and \<open>candidates\<close> is the list after the ancestry filter:
  if \<open>m\<close> is the first candidate whose module list is not empty and whose first module
  equals \<open>exePath\<close> up to case, then \<open>update\<close> dispatches exactly
  \<open>setToolPid exePath (processID m) excl\<close>; and whatever pid \<open>update\<close> reports in a
  \<open>setToolPid\<close> is the pid of a candidate with a non-empty module list whose first
  module matches, so a candidate with an empty module list is never selected.
\<close>

theorem update_selects_first_confirmed:
  assumes running: "byName processes (makeExeId ext exePath) = Some running"
      and unknown: "\<forall>known. toolsRunning state (makeExeId ext exePath) = Some known
                      \<longrightarrow> byPid processes (pid known) = None"
      and candidates: "candidates =
             (if considerDetached then running
              else filter (\<lambda>proc. isChildProcess (vortexPid ext) processes (Some proc) {}) running)"
  shows "(candidates = before @ m # after
            \<and> GetModuleList ext (processID m) = main # rest
            \<and> toLowerCase main = toLowerCase exePath
            \<and> (\<forall>c\<in>set before.
                  case GetModuleList ext (processID c) of
                    [] \<Rightarrow> True
                  | x # _ \<Rightarrow> toLowerCase x \<noteq> toLowerCase exePath)
          \<longrightarrow> update ext state processes exePath excl considerDetached
                = [setToolPid exePath (processID m) excl])
       \<and> (setToolPid anyPath selected anyExcl
             \<in> set (update ext state processes exePath excl considerDetached)
          \<longrightarrow> GetModuleList ext selected \<noteq> []
              \<and> toLowerCase (hd (GetModuleList ext selected)) = toLowerCase exePath
              \<and> selected \<in> processID ` set candidates)"
proof -
  let ?confirmed = "\<lambda>exe. case GetModuleList ext (processID exe) of
                         [] \<Rightarrow> False
                       | main # _ \<Rightarrow> toLowerCase main = toLowerCase exePath"
  have steady: "\<not> (case toolsRunning state (makeExeId ext exePath) of
                   None \<Rightarrow> False
                 | Some known \<Rightarrow> byPid processes (pid known) \<noteq> None)"
    using unknown by (simp split: option.splits)
  have upd: "update ext state processes exePath excl considerDetached =
        (case find ?confirmed candidates of
           Some m \<Rightarrow> [setToolPid exePath (processID m) excl]
         | None \<Rightarrow> (if toolsRunning state (makeExeId ext exePath) \<noteq> None
                     then [setToolStopped exePath] else []))"
    using running steady candidates by (auto simp: update_def Let_def split: option.splits)
  have first: "update ext state processes exePath excl considerDetached
                = [setToolPid exePath (processID m) excl]"
    if "candidates = before @ m # after"
      and "GetModuleList ext (processID m) = main # rest"
      and "toLowerCase main = toLowerCase exePath"
      and "\<forall>c\<in>set before.
                  case GetModuleList ext (processID c) of
                    [] \<Rightarrow> True
                  | x # _ \<Rightarrow> toLowerCase x \<noteq> toLowerCase exePath"
  proof -
    have "?confirmed m" using that(2,3) by simp
    moreover have "\<forall>c\<in>set before. \<not> ?confirmed c"
      using that(4) by (auto split: list.splits)
    ultimately have "find ?confirmed (before @ m # after) = Some m"
      by (rule find_first)
    then show ?thesis unfolding upd that(1) by simp
  qed
  have sel: "GetModuleList ext selected \<noteq> []
              \<and> toLowerCase (hd (GetModuleList ext selected)) = toLowerCase exePath
              \<and> selected \<in> processID ` set candidates"
    if "setToolPid anyPath selected anyExcl
             \<in> set (update ext state processes exePath excl considerDetached)"
  proof -
    from that obtain m where m: "find ?confirmed candidates = Some m" "selected = processID m"
      unfolding upd by (auto split: option.splits if_splits)
    from m(1) have "?confirmed m" "m \<in> set candidates"
      by (rule find_SomeD)+
    then show ?thesis using m(2) by (auto split: list.splits)
  qed
  show ?thesis using first sel by blast
qed

text \<open>
  Pids 100, 150 and 200 pass the ancestry filter. Pid 100 has another main module, pid 150
  has no modules, pid 200 matches up to case: pid 200 is reported.
\<close>

theorem update_selects_first_confirmed_witness:
  "byName tool_processes (makeExeId example_ext tool_path) = Some [p100, p150, p200, p300]
   \<and> [p100, p150, p200]
       = filter (\<lambda>proc. isChildProcess (vortexPid example_ext) tool_processes (Some proc) {})
           [p100, p150, p200, p300]
   \<and> GetModuleList example_ext (processID p100) = [''/other/tool.exe'']
   \<and> GetModuleList example_ext (processID p150) = []
   \<and> GetModuleList example_ext (processID p200) = [''/Configured/Path/Tool.exe'', ''/lib/helper.dll'']
   \<and> update example_ext (example_state Map.empty) tool_processes tool_path True False
       = [setToolPid tool_path (Num 200) True]"
proof -
  have h1: "byName tool_processes (makeExeId example_ext tool_path) = Some [p100, p150, p200, p300]"
    by code_simp
  have h2: "\<forall>known. toolsRunning (example_state Map.empty) (makeExeId example_ext tool_path)
                = Some known \<longrightarrow> byPid tool_processes (pid known) = None"
    by (simp add: example_state_def)
  have h3: "[p100, p150, p200] =
     (if False then [p100, p150, p200, p300]
      else filter (\<lambda>proc. isChildProcess (vortexPid example_ext) tool_processes (Some proc) {})
             [p100, p150, p200, p300])"
    by code_simp
  have h4: "[p100, p150, p200] = [p100, p150] @ p200 # []" by simp
  have h5: "GetModuleList example_ext (processID p200)
              = ''/Configured/Path/Tool.exe'' # [''/lib/helper.dll'']"
    by code_simp
  have h6: "toLowerCase ''/Configured/Path/Tool.exe'' = toLowerCase tool_path"
    by code_simp
  have h7: "\<forall>c\<in>set [p100, p150].
              case GetModuleList example_ext (processID c) of
                [] \<Rightarrow> True
              | x # _ \<Rightarrow> toLowerCase x \<noteq> toLowerCase tool_path"
    by code_simp
  have h8: "GetModuleList example_ext (processID p100) = [''/other/tool.exe'']"
    by code_simp
  have h9: "GetModuleList example_ext (processID p150) = []"
    by code_simp
  have "update example_ext (example_state Map.empty) tool_processes tool_path True False
       = [setToolPid tool_path (processID p200) True]"
    using update_selects_first_confirmed[OF h1 h2 h3, of "[p100, p150]" p200 "[]"
        "''/Configured/Path/Tool.exe''" "[''/lib/helper.dll'']" True] h4 h5 h6 h7
    by blast
  moreover have "processID p200 = Num 200" by (simp add: p200_def)
  ultimately show ?thesis using h1 h3 h5 h8 h9 by simp
qed

text \<open>
  C10. If the known-running state has an entry for the exe id of \<open>exePath\<close> whose pid is
  not a key of \<open>byPid\<close>, and some process of that executable name that passes the
  ancestry filter (or the target allows detached matches) has a first module equal to
  \<open>exePath\<close> up to case, then \<open>update\<close> dispatches a single \<open>setToolPid\<close> for
  \<open>exePath\<close>, with the target's \<open>exclusive\<close> flag and a pid of the snapshot that differs
  from the stored one, and no \<open>setToolStopped\<close>.
\<close>

theorem update_restart:
  assumes known: "toolsRunning state (makeExeId ext exePath) = Some known"
      and gone: "byPid processes (pid known) = None"
      and m: "m \<in> set processes" "toLowerCase (exeFile m) = makeExeId ext exePath"
      and kept: "considerDetached \<or> isChildProcess (vortexPid ext) processes (Some m) {}"
      and main: "GetModuleList ext (processID m) = main # rest"
                "toLowerCase main = toLowerCase exePath"
  shows "\<exists>newPid. update ext state processes exePath excl considerDetached
                    = [setToolPid exePath newPid excl]
                 \<and> newPid \<noteq> pid known
                 \<and> newPid \<in> processID ` set processes"
proof -
  let ?confirmed = "\<lambda>exe. case GetModuleList ext (processID exe) of
                         [] \<Rightarrow> False
                       | main # _ \<Rightarrow> toLowerCase main = toLowerCase exePath"
  let ?running = "filter (\<lambda>p. toLowerCase (exeFile p) = makeExeId ext exePath) processes"
  let ?candidates = "if considerDetached then ?running
              else filter (\<lambda>proc. isChildProcess (vortexPid ext) processes (Some proc) {}) ?running"
  have mr: "m \<in> set ?running" using m by simp
  then have "?running \<noteq> []" by (metis empty_iff list.set(1))
  then have running: "byName processes (makeExeId ext exePath) = Some ?running"
    by (simp add: byName_eq split: list.splits)
  have "m \<in> set ?candidates" using m kept by auto
  moreover have "?confirmed m" using main by simp
  ultimately have "find ?confirmed ?candidates \<noteq> None"
    by (auto simp: find_None_iff simp del: set_filter)
  then obtain c where c: "find ?confirmed ?candidates = Some c" by blast
  then have "c \<in> set ?candidates" by (rule find_SomeD)
  then have cin: "c \<in> set processes" by (auto split: if_splits)
  have "processID c \<noteq> pid known"
  proof
    assume "processID c = pid known"
    then have "pid known \<in> processID ` set processes" using cin by (metis imageI)
    with gone show False by (simp add: byPid_None_iff)
  qed
  moreover have "update ext state processes exePath excl considerDetached
                    = [setToolPid exePath (processID c) excl]"
    using running known gone c by (simp add: update_def Let_def)
  ultimately show ?thesis using cin by blast
qed

text \<open>The store remembers pid 5, which is gone; pid 200 is reported, without a stop.\<close>

theorem update_restart_witness:
  "toolsRunning (example_state (known_tool 5)) (makeExeId example_ext tool_path)
     = Some \<lparr>pid = Num 5, running_exclusive = False\<rparr>
   \<and> byPid tool_processes (Num 5) = None
   \<and> (\<exists>newPid. update example_ext (example_state (known_tool 5)) tool_processes tool_path True False
                    = [setToolPid tool_path newPid True]
                 \<and> newPid \<noteq> Num 5
                 \<and> newPid \<in> processID ` set tool_processes)
   \<and> update example_ext (example_state (known_tool 5)) tool_processes tool_path True False
       = [setToolPid tool_path (Num 200) True]"
proof -
  have h1: "toolsRunning (example_state (known_tool 5)) (makeExeId example_ext tool_path)
     = Some \<lparr>pid = Num 5, running_exclusive = False\<rparr>"
    by code_simp
  have h2: "byPid tool_processes (pid \<lparr>pid = Num 5, running_exclusive = False\<rparr>) = None"
    by code_simp
  have h3: "p200 \<in> set tool_processes" by (simp add: tool_processes_def)
  have h4: "toLowerCase (exeFile p200) = makeExeId example_ext tool_path" by code_simp
  have h5: "False \<or> isChildProcess (vortexPid example_ext) tool_processes (Some p200) {}"
    by code_simp
  have h6: "GetModuleList example_ext (processID p200)
              = ''/Configured/Path/Tool.exe'' # [''/lib/helper.dll'']"
    by code_simp
  have h7: "toLowerCase ''/Configured/Path/Tool.exe'' = toLowerCase tool_path"
    by code_simp
  have h8: "update example_ext (example_state (known_tool 5)) tool_processes tool_path True False
       = [setToolPid tool_path (Num 200) True]"
    by code_simp
  show ?thesis
    using update_restart[OF h1 h2 h3 h4 h5 h6 h7, of True] h1 h2 h8
    by simp
qed

section \<open>Properties of one check\<close>

text \<open>
  C9. If \<open>gameExe\<close> (the discovery's executable or else the game's) or \<open>gamePath\<close> (the
  discovery's path) is \<open>undefined\<close>, the check dispatches nothing at all, whatever the
  process list, the discovered tools and the known-running state are.
\<close>

theorem doCheck_no_game_no_actions:
  assumes "js_or (Option.bind (currentGameDiscovery state) disc_executable)
                 (Option.bind (currentGame state) game_executable) = None
           \<or> Option.bind (currentGameDiscovery state) disc_path = None"
  shows "fst (doCheck ext sys state impl) = []"
  using assms
  by (auto simp: doCheck_def Let_def split: option.splits sum.splits)

text \<open>
  No discovery for the game, and a tool whose remembered pid 5 is gone: nothing is
  dispatched, not even the stop of that tool.
\<close>

theorem doCheck_no_game_no_actions_witness:
  "Option.bind (currentGameDiscovery no_discovery_state) disc_path = None
   \<and> toolsRunning no_discovery_state ''tool.exe'' = Some \<lparr>pid = Num 5, running_exclusive = False\<rparr>
   \<and> byPid [p100] (Num 5) = None
   \<and> fst (doCheck example_ext (example_os [p100]) no_discovery_state
            (Some ProcessMonitorImplWin32)) = []"
proof -
  have h1: "js_or (Option.bind (currentGameDiscovery no_discovery_state) disc_executable)
                 (Option.bind (currentGame no_discovery_state) game_executable) = None
           \<or> Option.bind (currentGameDiscovery no_discovery_state) disc_path = None"
    by code_simp
  have h2: "Option.bind (currentGameDiscovery no_discovery_state) disc_path = None"
    by code_simp
  have h3: "toolsRunning no_discovery_state ''tool.exe''
              = Some \<lparr>pid = Num 5, running_exclusive = False\<rparr>"
    by code_simp
  have h4: "byPid [p100] (Num 5) = None" by code_simp
  show ?thesis
    using doCheck_no_game_no_actions[OF h1, of example_ext "example_os [p100]"
        "Some ProcessMonitorImplWin32"] h2 h3 h4
    by simp
qed

section \<open>Properties of the enumeration\<close>

lemma map_throwing_Inr:
  assumes "\<forall>x\<in>set xs. \<exists>y. f x = Inr y"
  shows "map_throwing f xs = Inr (map (\<lambda>x. projr (f x)) xs)"
  using assms by (induction xs) auto

lemma map_throwing_Inl:
  assumes "x \<in> set xs" and "f x = Inl err"
  shows "\<exists>err'. map_throwing f xs = Inl err'"
  using assms by (induction xs) (auto split: sum.splits)

lemma those_null: "None \<in> set xs \<Longrightarrow> those xs = None"
  by (induction xs) (auto split: option.splits)

lemma getProcessInfo_vanished:
  "readFileSync_stat sys e = Inl (FsError ''ENOENT'') \<Longrightarrow> getProcessInfo sys e = Inr None"
  by (simp add: getProcessInfo_def)

lemma getProcessInfo_failed:
  "readFileSync_stat sys e = Inl err \<Longrightarrow> err \<noteq> FsError ''ENOENT''
     \<Longrightarrow> getProcessInfo sys e = Inl err"
  by (simp add: getProcessInfo_def)

lemma getProcessInfo_read:
  "readFileSync_stat sys e = Inr stat \<Longrightarrow> \<exists>info. getProcessInfo sys e = Inr (Some info)"
  by (simp add: getProcessInfo_def Let_def)

text \<open>
  What the procfs enumerator does when a listed process has vanished (and no read fails
  otherwise): it returns a list as long as the list of numeric entries, with \<open>null\<close> at
  the place of the vanished process, and the check that receives it throws a TypeError
  before it dispatches anything.
\<close>

lemma getProcessList_keeps_null:
  assumes dir: "readdirSync_proc sys = Inr proc_entries"
      and e: "e \<in> set proc_entries" "isOnlyDigits e"
             "readFileSync_stat sys e = Inl (FsError ''ENOENT'')"
      and others: "\<forall>x\<in>set proc_entries. \<forall>err. readFileSync_stat sys x = Inl err
                      \<longrightarrow> err = FsError ''ENOENT''"
  shows "\<exists>entries. getProcessList sys ProcessMonitorImplProcfs = Inr entries
           \<and> None \<in> set entries
           \<and> length entries = length (filter isOnlyDigits proc_entries)
           \<and> doCheck ext sys state (Some ProcessMonitorImplProcfs) = ([], Some TypeError)"
proof -
  let ?pids = "filter isOnlyDigits proc_entries"
  let ?entries = "map (\<lambda>x. projr (getProcessInfo sys x)) ?pids"
  have ok: "\<forall>x\<in>set ?pids. \<exists>y. getProcessInfo sys x = Inr y"
  proof
    fix x assume "x \<in> set ?pids"
    then have x: "x \<in> set proc_entries" by simp
    show "\<exists>y. getProcessInfo sys x = Inr y"
    proof (cases "readFileSync_stat sys x")
      case (Inl err)
      with others x have "err = FsError ''ENOENT''" by blast
      with Inl show ?thesis by (simp add: getProcessInfo_vanished)
    next
      case (Inr stat)
      then show ?thesis using getProcessInfo_read by blast
    qed
  qed
  have list: "getProcessList sys ProcessMonitorImplProcfs = Inr ?entries"
    using dir map_throwing_Inr[OF ok] by (simp add: getProcessList_def)
  have "e \<in> set ?pids" using e by simp
  moreover have "projr (getProcessInfo sys e) = None"
    using e(3) by (simp add: getProcessInfo_vanished)
  ultimately have null: "None \<in> set ?entries" by force
  then have "those ?entries = None" by (rule those_null)
  then have "doCheck ext sys state (Some ProcessMonitorImplProcfs) = ([], Some TypeError)"
    using list by (simp add: doCheck_def)
  with list null show ?thesis by simp
qed

text \<open>Any other failure of a read makes the whole enumeration fail.\<close>

lemma getProcessList_other_failure:
  assumes dir: "readdirSync_proc sys = Inr proc_entries"
      and e: "e \<in> set proc_entries" "isOnlyDigits e" "readFileSync_stat sys e = Inl err"
             "err \<noteq> FsError ''ENOENT''"
  shows "\<exists>err'. getProcessList sys ProcessMonitorImplProcfs = Inl err'"
proof -
  have "e \<in> set (filter isOnlyDigits proc_entries)" using e by simp
  moreover have "getProcessInfo sys e = Inl err" using e(3,4) by (rule getProcessInfo_failed)
  ultimately have "\<exists>err'. map_throwing (getProcessInfo sys) (filter isOnlyDigits proc_entries)
                      = Inl err'"
    by (rule map_throwing_Inl)
  then show ?thesis using dir by (simp add: getProcessList_def)
qed

text \<open>
  C2 (the code at a failing input). \<open>/proc\<close> lists \<open>1\<close>, \<open>4242\<close> and \<open>self\<close>; the
  \<open>stat\<close> file of pid 1 is read, that of pid 4242 fails with \<open>ENOENT\<close>. The claim asks for
  a list that omits pid 4242 and holds well-formed records only. \<open>getProcessList\<close> returns
  the record of pid 1 followed by \<open>null\<close>; \<open>doCheck\<close> throws a TypeError on it, and
  \<open>check\<close> arms no further timeout.
\<close>

theorem getProcessList_vanished_process:
  "getProcessList vanishing_proc ProcessMonitorImplProcfs
     = Inr [Some \<lparr>processID = Num 1, parentProcessID = Num 0, exeFile = ''systemd''\<rparr>, None]
   \<and> doCheck example_ext vanishing_proc (example_state (known_tool 5))
         (Some ProcessMonitorImplProcfs) = ([], Some TypeError)
   \<and> timers (check example_ext vanishing_proc (example_state (known_tool 5)) True
                procfs_monitor_fired) = []
   \<and> uncaught (check example_ext vanishing_proc (example_state (known_tool 5)) True
                procfs_monitor_fired) = [TypeError]"
  by code_simp

section \<open>Properties of the polling schedule\<close>

text \<open>
  At most one timeout is armed, it is the one \<open>mTimer\<close> holds, and an active monitor has
  a timer handle.
\<close>

definition single_timer :: "runtime \<Rightarrow> bool" where
  "single_timer w \<longleftrightarrow>
     (timers w = [] \<or> (\<exists>h delay. timers w = [(h, delay)] \<and> mTimer w = Some h))
     \<and> (mActive w \<longrightarrow> mTimer w \<noteq> None)"

lemma single_timer_new: "single_timer (new_ProcessMonitor platform)"
  by (simp add: single_timer_def new_ProcessMonitor_def)

lemma single_timer_start: "single_timer w \<Longrightarrow> single_timer (start remote w)"
  by (auto simp: single_timer_def start_def setTimeout_def clearTimeout_def Let_def
           split: option.splits)

lemma single_timer_end: "single_timer w \<Longrightarrow> single_timer (end_monitor w)"
  by (auto simp: single_timer_def end_monitor_def clearTimeout_def split: option.splits)

lemma fired_timer:
  assumes "single_timer w" and "h \<in> fst ` set (timers w)"
  shows "timers (clearTimeout h w) = []" and "mTimer (clearTimeout h w) = Some h"
    and "mActive (clearTimeout h w) = mActive w"
  using assms by (auto simp: single_timer_def clearTimeout_def)

lemma single_timer_check:
  assumes "timers w = []" and "mActive w \<longrightarrow> mTimer w \<noteq> None"
  shows "single_timer (check ext sys state focused w)"
  using assms
  by (auto simp: single_timer_def check_def setTimeout_def Let_def split: option.splits prod.splits)

lemma single_timer_step: "single_timer w \<Longrightarrow> single_timer (step e w)"
proof (cases e)
  case (Start remote)
  assume "single_timer w"
  then show ?thesis using Start by (simp add: single_timer_start)
next
  case End
  assume "single_timer w"
  then show ?thesis using End by (simp add: single_timer_end)
next
  case (Fire h ext sys state focused)
  assume inv: "single_timer w"
  show ?thesis
  proof (cases "h \<in> fst ` set (timers w)")
    case True
    have "single_timer (check ext sys state focused (clearTimeout h w))"
      using fired_timer[OF inv True] by (intro single_timer_check) simp_all
    with True Fire show ?thesis by simp
  next
    case False
    with Fire inv show ?thesis by simp
  qed
qed

lemma single_timer_run: "single_timer w \<Longrightarrow> single_timer (run events w)"
  unfolding run_def by (induction events arbitrary: w) (simp_all add: single_timer_step)

lemma start_active: "mActive w \<Longrightarrow> start remote w = w"
  by (simp add: start_def)

lemma start_arms_one:
  assumes "single_timer w" and "\<not> mActive w" and "mImpl w \<noteq> None"
  shows "\<exists>h. timers (start remote w) = [(h, 2000)] \<and> mTimer (start remote w) = Some h"
    and "mActive (start remote w)"
  using assms
  by (auto simp: single_timer_def start_def setTimeout_def clearTimeout_def Let_def
           split: option.splits)

lemma end_cancels:
  assumes "single_timer w"
  shows "timers (end_monitor w) = []" and "\<not> mActive (end_monitor w)"
    and "mTimer (end_monitor w) = None"
  using assms
  by (auto simp: single_timer_def end_monitor_def clearTimeout_def split: option.splits)

lemma end_idle: "mTimer w = None \<Longrightarrow> end_monitor w = w"
  by (simp add: end_monitor_def)

lemma check_inactive: "\<not> mActive w \<Longrightarrow> check ext sys state focused w = w"
  by (simp add: check_def)

lemma fires_nothing_armed:
  assumes "timers w = []" and "\<forall>e\<in>set fires. is_Fire e"
  shows "run fires w = w"
  using assms unfolding run_def
proof (induction fires)
  case Nil
  then show ?case by simp
next
  case (Cons e fires)
  then obtain h ext sys state focused where "e = Fire h ext sys state focused"
    by (cases e) auto
  with Cons show ?case by simp
qed

text \<open>
  C3 (as the code has it). On a tick of an active monitor: if the window is focused or
  there is no window, \<open>doCheck\<close> is called once, its actions are dispatched, and when it
  returns without throwing the next timeout is armed with 2000 ms; if there is a window
  and it is not focused, \<open>doCheck\<close> is not called, nothing is dispatched, and the next
  timeout is armed with 5000 ms, which is 2.5 times 2000.
\<close>

theorem check_next_period:
  assumes "mActive w"
  shows "(mWindow w = None \<or> focused \<longrightarrow>
            doCheckCalls (check ext sys state focused w) = Suc (doCheckCalls w)
          \<and> dispatched (check ext sys state focused w)
              = dispatched w @ fst (doCheck ext sys state (mImpl w))
          \<and> (snd (doCheck ext sys state (mImpl w)) = None \<longrightarrow>
                timers (check ext sys state focused w) = timers w @ [(nextHandle w, 2000)]
              \<and> mTimer (check ext sys state focused w) = Some (nextHandle w)))
       \<and> (mWindow w \<noteq> None \<and> \<not> focused \<longrightarrow>
            doCheckCalls (check ext sys state focused w) = doCheckCalls w
          \<and> dispatched (check ext sys state focused w) = dispatched w
          \<and> timers (check ext sys state focused w) = timers w @ [(nextHandle w, 5000)]
          \<and> mTimer (check ext sys state focused w) = Some (nextHandle w))"
  using assms
  by (auto simp: check_def setTimeout_def Let_def split: option.splits prod.splits)

text \<open>
  The claim that the check is invoked on every tick of an active monitor fails: the
  monitor is started with a window, its timeout fires while the window is not focused,
  and \<open>doCheck\<close> on the inputs of that tick would dispatch a \<open>setToolStopped\<close>; yet
  \<open>doCheck\<close> has not been called and nothing has been dispatched.
\<close>

theorem check_next_period_counterexample:
  "mActive (run [Start True] (new_ProcessMonitor ''win32''))
   \<and> timers (run [Start True] (new_ProcessMonitor ''win32'')) = [(0, 2000)]
   \<and> fst (doCheck example_ext (example_os [reused_pid_process]) (example_state (known_tool 200))
            (Some ProcessMonitorImplWin32)) = [setToolStopped tool_path]
   \<and> doCheckCalls (run background_tick (new_ProcessMonitor ''win32'')) = 0
   \<and> dispatched (run background_tick (new_ProcessMonitor ''win32'')) = []
   \<and> timers (run background_tick (new_ProcessMonitor ''win32'')) = [(1, 5000)]"
  by code_simp

text \<open>The same tick with the window focused, and again with the window in the background.\<close>

theorem check_next_period_witness:
  "mActive armed_monitor \<and> mWindow armed_monitor \<noteq> None \<and> timers armed_monitor = []
   \<and> doCheckCalls (check example_ext (example_os [reused_pid_process])
                      (example_state (known_tool 200)) True armed_monitor) = 1
   \<and> dispatched (check example_ext (example_os [reused_pid_process])
                      (example_state (known_tool 200)) True armed_monitor)
       = [setToolStopped tool_path]
   \<and> timers (check example_ext (example_os [reused_pid_process])
                      (example_state (known_tool 200)) True armed_monitor) = [(1, 2000)]
   \<and> doCheckCalls (check example_ext (example_os [reused_pid_process])
                      (example_state (known_tool 200)) False armed_monitor) = 0
   \<and> timers (check example_ext (example_os [reused_pid_process])
                      (example_state (known_tool 200)) False armed_monitor) = [(1, 5000)]"
proof -
  have h1: "mActive armed_monitor" by code_simp
  have h2: "mWindow armed_monitor \<noteq> None" by code_simp
  have h3: "timers armed_monitor = []" "nextHandle armed_monitor = 1"
    "doCheckCalls armed_monitor = 0" "dispatched armed_monitor = []"
    "mImpl armed_monitor = Some ProcessMonitorImplWin32"
    by code_simp+
  have h4: "doCheck example_ext (example_os [reused_pid_process])
              (example_state (known_tool 200)) (Some ProcessMonitorImplWin32)
            = ([setToolStopped tool_path], None)"
    by code_simp
  show ?thesis
    using check_next_period[OF h1, of True example_ext "example_os [reused_pid_process]"
            "example_state (known_tool 200)"]
          check_next_period[OF h1, of False example_ext "example_os [reused_pid_process]"
            "example_state (known_tool 200)"]
          h1 h2 h3 h4
    by simp
qed

text \<open>
  C8. In every state a monitor reaches from its constructor by calls of \<open>start\<close> and
  \<open>end\<close> and by firings of its timeouts: at most one timeout is armed; \<open>start\<close> on an
  active monitor changes nothing; \<open>start\<close> on an idle monitor of a supported platform
  arms exactly one timeout, and a second \<open>start\<close> then changes nothing; \<open>end\<close> leaves no
  timeout armed and the monitor inactive, and a second \<open>end\<close> changes nothing; a run of
  \<open>check\<close> after \<open>end\<close> changes nothing, and no sequence of firings after \<open>end\<close> does.
\<close>

theorem scheduler_single_pending_timer:
  assumes "w = run events (new_ProcessMonitor platform)"
  shows "length (timers w) \<le> 1
       \<and> (mActive w \<longrightarrow> start remote w = w)
       \<and> (\<not> mActive w \<and> mImpl w \<noteq> None \<longrightarrow>
            length (timers (start remote w)) = 1
          \<and> start remote2 (start remote w) = start remote w)
       \<and> timers (end_monitor w) = []
       \<and> \<not> mActive (end_monitor w)
       \<and> end_monitor (end_monitor w) = end_monitor w
       \<and> check ext sys state focused (end_monitor w) = end_monitor w
       \<and> ((\<forall>e\<in>set fires. is_Fire e) \<longrightarrow> run fires (end_monitor w) = end_monitor w)"
proof -
  have inv: "single_timer w"
    unfolding assms by (intro single_timer_run single_timer_new)
  have one: "length (timers w) \<le> 1"
    using inv by (auto simp: single_timer_def)
  have again: "start remote2 (start remote w) = start remote w"
       and armed: "length (timers (start remote w)) = 1"
    if "\<not> mActive w" "mImpl w \<noteq> None"
    using start_arms_one[OF inv that, of remote] by (auto simp: start_active)
  note ended = end_cancels[OF inv]
  have idem: "end_monitor (end_monitor w) = end_monitor w"
    using ended(3) by (rule end_idle)
  have late: "check ext sys state focused (end_monitor w) = end_monitor w"
    using ended(2) by (rule check_inactive)
  have quiet: "run fires (end_monitor w) = end_monitor w" if "\<forall>e\<in>set fires. is_Fire e"
    using ended(1) that by (rule fires_nothing_armed)
  show ?thesis
    using one again armed ended(1,2) idem late quiet by (simp add: start_active)
qed

text \<open>
  Two calls of \<open>start\<close> leave the one timeout of the first; after \<open>end\<close> nothing is
  armed, and firings change nothing and call \<open>doCheck\<close> never.
\<close>

theorem scheduler_single_pending_timer_witness:
  "mActive started_once
   \<and> timers started_once = [(0, 2000)]
   \<and> run [Start True, Start False] (new_ProcessMonitor ''linux'') = started_once
   \<and> timers (run [Start True, Start False] (new_ProcessMonitor ''linux'')) = [(0, 2000)]
   \<and> length (timers (start True (run [] (new_ProcessMonitor ''linux'')))) = 1
   \<and> timers (end_monitor started_once) = []
   \<and> end_monitor (end_monitor started_once) = end_monitor started_once
   \<and> run [late_fire, late_fire] (end_monitor started_once) = end_monitor started_once
   \<and> doCheckCalls (run [Start True, End, late_fire] (new_ProcessMonitor ''linux'')) = 0"
proof -
  let ?new = "new_ProcessMonitor ''linux''"
  have w: "started_once = run [Start True] ?new" by (simp add: started_once_def)
  have idle: "run [] ?new = run [] ?new" by simp
  have active: "mActive started_once" by code_simp
  have inactive: "\<not> mActive (run [] ?new) \<and> mImpl (run [] ?new) \<noteq> None" by code_simp
  have fires: "\<forall>e\<in>set [late_fire, late_fire]. is_Fire e" by (simp add: late_fire_def)
  have armed: "timers started_once = [(0, 2000)]" by code_simp
  have twice: "run [Start True, Start False] ?new = start False started_once"
    by (simp add: run_def started_once_def)
  have last: "run [Start True, End, late_fire] ?new = run [late_fire] (end_monitor started_once)"
    by (simp add: run_def started_once_def)
  have "doCheckCalls (end_monitor started_once) = 0" by code_simp
  moreover have "run [late_fire] (end_monitor started_once) = end_monitor started_once"
    using scheduler_single_pending_timer[OF w, of _ _ _ _ _ _ "[late_fire]"]
    by (simp add: late_fire_def)
  ultimately have none: "doCheckCalls (run [Start True, End, late_fire] ?new) = 0"
    using last by simp
  show ?thesis
    using scheduler_single_pending_timer[OF w, of False _ example_ext
            "example_os [reused_pid_process]" "example_state (known_tool 200)" True
            "[late_fire, late_fire]"]
          scheduler_single_pending_timer[OF idle, of True False]
          active inactive fires armed twice none
    by simp
qed

end
